theory Spec2Isabelle
  imports Main
begin

section \<open>Go library functions used by main.go\<close>

text \<open>
  Go strings are byte sequences; they are modelled as \<open>string\<close> (a list of 8-bit
  characters). Go's \<open>int\<close> is the 64-bit signed integer of the build targets
  (amd64); it is modelled as \<open>int\<close> with the wrap-around of \<open>count++\<close> written out.
\<close>

subsection \<open>strconv.Itoa and strconv.Atoi\<close>

definition digit_char :: "nat \<Rightarrow> char" where
  "digit_char d = char_of (48 + d)"

fun formatBits10 :: "nat \<Rightarrow> string" where
  "formatBits10 u =
     (if u < 10 then [digit_char u]
      else formatBits10 (u div 10) @ [digit_char (u mod 10)])"

declare formatBits10.simps [simp del]

definition Itoa :: "int \<Rightarrow> string" where
  "Itoa i = (if i < 0 then CHR ''-'' # formatBits10 (nat (- i)) else formatBits10 (nat i))"

definition isDigit :: "char \<Rightarrow> bool" where
  "isDigit c = (48 \<le> (of_char c :: nat) \<and> (of_char c :: nat) \<le> 57)"

definition digitVal :: "char \<Rightarrow> nat" where
  "digitVal c = of_char c - 48"

definition parseDigits :: "string \<Rightarrow> nat" where
  "parseDigits ds = foldl (\<lambda>n c. 10 * n + digitVal c) 0 ds"

datatype num_error = ErrSyntax | ErrRange

definition maxInt :: int where
  "maxInt = 9223372036854775807"

definition minInt :: int where
  "minInt = - 9223372036854775808"

text \<open>
  \<open>strconv.Atoi\<close>: an optional sign, then at least one decimal digit and nothing else;
  a value outside the range of \<open>int\<close> is a range error.
\<close>

definition Atoi :: "string \<Rightarrow> num_error + int" where
  "Atoi s0 =
     (let neg = (s0 \<noteq> [] \<and> hd s0 = CHR ''-'');
          s = (if s0 \<noteq> [] \<and> (hd s0 = CHR ''-'' \<or> hd s0 = CHR ''+'') then tl s0 else s0)
      in if s = [] then Inl ErrSyntax
         else if \<not> list_all isDigit s then Inl ErrSyntax
         else let un = int (parseDigits s)
              in if neg then (if - un < minInt then Inl ErrRange else Inr (- un))
                 else (if maxInt < un then Inl ErrRange else Inr un))"

subsection \<open>Arithmetic on int\<close>

text \<open>\<open>count++\<close> on a 64-bit signed integer wraps from \<open>maxInt\<close> to \<open>minInt\<close>.\<close>

definition wrap64 :: "int \<Rightarrow> int" where
  "wrap64 x = (x + 9223372036854775808) mod 18446744073709551616 - 9223372036854775808"

definition goInc :: "int \<Rightarrow> int" where
  "goInc c = wrap64 (c + 1)"

text \<open>Go's \<open>%\<close> truncates towards zero: the remainder has the sign of the dividend.\<close>

definition goRem :: "int \<Rightarrow> int \<Rightarrow> int" where
  "goRem a b = sgn a * (\<bar>a\<bar> mod \<bar>b\<bar>)"

subsection \<open>strings.ToUpper\<close>

text \<open>
  On a string of ASCII bytes \<open>strings.ToUpper\<close> maps \<open>a\<close>..\<open>z\<close> to \<open>A\<close>..\<open>Z\<close> and
  keeps every other byte. On any other string it maps runes through the Unicode tables,
  which are not part of this repository: that mapping is the parameter \<open>unicodeUpper\<close>.
\<close>

definition isASCII :: "string \<Rightarrow> bool" where
  "isASCII s = list_all (\<lambda>c. (of_char c :: nat) < 128) s"

definition upperByte :: "char \<Rightarrow> char" where
  "upperByte c =
     (if 97 \<le> (of_char c :: nat) \<and> (of_char c :: nat) \<le> 122
      then char_of ((of_char c :: nat) - 32) else c)"

definition ToUpper :: "(string \<Rightarrow> string) \<Rightarrow> string \<Rightarrow> string" where
  "ToUpper unicodeUpper s = (if isASCII s then map upperByte s else unicodeUpper s)"

subsection \<open>fmt.Fprintf without operands\<close>

text \<open>
  \<open>fmt.Fprintf(w, format)\<close> with no operand copies the format up to each \<open>%\<close>. A
  \<open>%\<close> that ends the format is written as \<open>%!(NOVERB)\<close>, \<open>%%\<close> as \<open>%\<close>, and a
  \<open>%\<close> followed at once by a verb character \<open>v\<close> as \<open>%!v(MISSING)\<close>. A \<open>%\<close>
  followed by a flag, a width, a precision, an argument index or a byte that is not
  ASCII is left to the parameter \<open>other\<close>, which renders the format from there on.
\<close>

definition plainVerb :: "char \<Rightarrow> bool" where
  "plainVerb v = (v \<notin> set ''#0+- [*.123456789'' \<and> (of_char v :: nat) < 128)"

fun doPrintf0 :: "(string \<Rightarrow> string) \<Rightarrow> string \<Rightarrow> string" where
  "doPrintf0 other [] = []"
| "doPrintf0 other [c] = (if c = CHR ''%'' then ''%!(NOVERB)'' else [c])"
| "doPrintf0 other (c # v # rest) =
     (if c \<noteq> CHR ''%'' then c # doPrintf0 other (v # rest)
      else if v = CHR ''%'' then CHR ''%'' # doPrintf0 other rest
      else if plainVerb v then ''%!'' @ [v] @ ''(MISSING)'' @ doPrintf0 other rest
      else other (c # v # rest))"

subsection \<open>Escaping of a URL path\<close>

text \<open>
  \<open>net/url\<close> escapes a path byte as \<open>%XX\<close> unless it is a letter, a digit or one of
  \<open>-_.~$&+,/:;=@\<close>.
\<close>

definition hexDigit :: "nat \<Rightarrow> char" where
  "hexDigit n = ''0123456789ABCDEF'' ! n"

definition isAlnum :: "char \<Rightarrow> bool" where
  "isAlnum c =
     (let n = (of_char c :: nat)
      in (97 \<le> n \<and> n \<le> 122) \<or> (65 \<le> n \<and> n \<le> 90) \<or> (48 \<le> n \<and> n \<le> 57))"

definition shouldEscapePath :: "char \<Rightarrow> bool" where
  "shouldEscapePath c = (\<not> isAlnum c \<and> c \<notin> set ''-_.~$&+,/:;=@'')"

definition escapePath :: "string \<Rightarrow> string" where
  "escapePath p =
     concat (map (\<lambda>c. if shouldEscapePath c
                        then [CHR ''%'', hexDigit ((of_char c :: nat) div 16),
                              hexDigit ((of_char c :: nat) mod 16)]
                        else [c]) p)"

section \<open>Data model of main.go\<close>

text \<open>A Go \<open>error\<close> value is identified with its message.\<close>

type_synonym error = string

text \<open>The fields of \<open>Comment\<close> that the program reads.\<close>

record Comment =
  ObjectKind :: string
  Username :: string
  ProjectID :: int
  Note :: string
  NoteableType :: string
  Iid :: int
  MergeStatus :: string
  ForceRemoveSourceBranch :: string

definition ObjectNote :: string where
  "ObjectNote = ''note''"

definition NoteableTypeMergeRequest :: string where
  "NoteableTypeMergeRequest = ''MergeRequest''"

definition NoteLGTM :: string where
  "NoteLGTM = ''LGTM''"

definition StatusCanbeMerged :: string where
  "StatusCanbeMerged = ''can_be_merged''"

definition bucketName :: string where
  "bucketName = ''lgtm''"

definition ErrInvalidRequest :: error where
  "ErrInvalidRequest = ''invalid request body''"

definition ErrInvalidContentType :: error where
  "ErrInvalidContentType = ''invalid content type''"

definition RespOK :: string where
  "RespOK = ''OK''"

text \<open>The command-line flags read by the modelled functions.\<close>

record flags =
  privateToken :: string
  validLGTMCount :: int
  lgtmNote :: string

text \<open>
  \<open>glURL\<close>: the parsed base URL, for a base URL without user information, opaque
  part, query and fragment. \<open>URL_String\<close> is \<open>url.URL.String\<close> on such a URL: the
  scheme with its colon when there is one, \<open>//\<close> and the host when there is a scheme or
  a host, then the escaped path, after \<open>/\<close> when a host precedes a path that does not
  start with one, and after \<open>./\<close> when nothing precedes a path whose first segment has
  a colon. The host is written as it is. \<open>RawPath\<close> is left out: once
  \<open>acceptMergeRequest\<close> has extended \<open>Path\<close> it no longer encodes the path, and
  \<open>EscapedPath\<close> escapes \<open>Path\<close> itself.
\<close>

record URL =
  Scheme :: string
  Host :: string
  Path :: string

definition URL_String :: "URL \<Rightarrow> string" where
  "URL_String u =
     (let front =
            (if Scheme u \<noteq> [] then Scheme u @ '':'' else [])
            @ (if (Scheme u \<noteq> [] \<or> Host u \<noteq> []) \<and> (Host u \<noteq> [] \<or> Path u \<noteq> [])
               then ''//'' @ Host u else []);
          path = (if Path u = ''*'' then ''*'' else escapePath (Path u))
      in front
         @ (if path \<noteq> [] \<and> hd path \<noteq> CHR ''/'' \<and> Host u \<noteq> [] then ''/'' else [])
         @ (if front = [] \<and> CHR '':'' \<in> set (takeWhile (\<lambda>c. c \<noteq> CHR ''/'') path)
            then ''./'' else [])
         @ path)"

text \<open>
  An outbound request: method, URL, the headers in the order they are set, with their
  names as the calls of \<open>Header.Set\<close> write them (\<open>net/http\<close> stores and sends them in
  canonical letter case), and the JSON object of the body as its key/value pairs
  (\<open>json.Marshal\<close> of a \<open>map[string]string\<close>).
\<close>

record Request =
  Method :: string
  Url :: string
  Header :: "(string \<times> string) list"
  Body :: "(string \<times> string) list"

datatype level = InfoLevel | WarnLevel | ErrorLevel

text \<open>
  The process state: the committed content of the bolt file (bucket name to key to
  value), whether a write transaction begun by \<open>db.Begin(true)\<close> is still open, the
  global \<open>mutex\<close>, the global \<open>reviewers\<close>, the global \<open>glURL\<close>, the outbound requests
  handed to the HTTP client so far, and the log lines (level and message).
\<close>

record state =
  db :: "string \<rightharpoonup> (string \<rightharpoonup> string)"
  txOpen :: bool
  mutexLocked :: bool
  reviewers :: "string list"
  glURL :: URL
  sent :: "Request list"
  logs :: "(level \<times> string) list"

text \<open>
  What the world outside the process answers during one invocation: the content of
  reviewers.yaml (unreadable, not valid YAML for \<open>Conf\<close>, or a document that sets the
  \<open>reviewers\<close> field or leaves it as it is), the error of each bolt call if it fails,
  the error of \<open>http.NewRequest\<close>, the outcome of \<open>http.DefaultClient.Do\<close> (an error or
  status code and status text), and the library functions that are not in the
  repository: the Unicode case mapping, the JSON decoder of \<open>Comment\<close>, and what
  \<open>fmt.Fprintf\<close> writes, without operands, for a format from a \<open>%\<close> that carries
  flags, a width, a precision or an argument index.
\<close>

datatype reviewers_file = ReadFailed | BadYaml | Yaml "string list option"

record env =
  reviewersFile :: reviewers_file
  beginErr :: "error option"
  bucketErr :: "error option"
  putErr :: "error option"
  commitErr :: "error option"
  newRequestErr :: "error option"
  httpDo :: "error + nat \<times> string"
  unicodeUpper :: "string \<Rightarrow> string"
  jsonDecode :: "string \<Rightarrow> error + Comment"
  fmtVerbs :: "string \<Rightarrow> string"

definition logf :: "level \<Rightarrow> string \<Rightarrow> state \<Rightarrow> state" where
  "logf l m s = s\<lparr>logs := logs s @ [(l, m)]\<rparr>"

section \<open>Reviewer policy\<close>

datatype conf_ptr = NilConf | ConfPtr

datatype 'a ret = Ret 'a | Fatal

text \<open>
  \<open>getReviewers\<close>: nil when the file cannot be read, \<open>logrus.Fatalf\<close> (the process
  exits) when it cannot be unmarshalled, otherwise the receiver, whose \<open>Reviewers\<close> field
  is overwritten when the document sets it.
\<close>

definition getReviewers :: "env \<Rightarrow> state \<Rightarrow> conf_ptr ret \<times> state" where
  "getReviewers ev s =
     (case reviewersFile ev of
        ReadFailed \<Rightarrow> (Ret NilConf, s)
      | BadYaml \<Rightarrow> (Fatal, s)
      | Yaml None \<Rightarrow> (Ret ConfPtr, s)
      | Yaml (Some rs) \<Rightarrow> (Ret ConfPtr, s\<lparr>reviewers := rs\<rparr>))"

text \<open>The loop of \<open>checkReviewers\<close> over \<open>reviewers.Reviewers\<close>.\<close>

primrec isReviewer :: "string list \<Rightarrow> string \<Rightarrow> bool" where
  "isReviewer [] u = False"
| "isReviewer (r # rs) u = (if r = u then True else isReviewer rs u)"

definition checkReviewers :: "env \<Rightarrow> Comment \<Rightarrow> state \<Rightarrow> bool ret \<times> state" where
  "checkReviewers ev comment s =
     (case getReviewers ev s of
        (Fatal, s1) \<Rightarrow> (Fatal, s1)
      | (Ret NilConf, s1) \<Rightarrow> (Ret True, s1)
      | (Ret ConfPtr, s1) \<Rightarrow>
          if length (reviewers s1) = 0 then (Ret True, s1)
          else if isReviewer (reviewers s1) (Username comment) then (Ret True, s1)
          else (Ret False,
                logf WarnLevel (''User '' @ Username comment @ '' is not allowed to do LGTM'') s1))"

section \<open>Approval counter store\<close>

text \<open>
  \<open>checkLGTMCount\<close> returns a boolean and an error, or panics (\<open>%\<close> by zero), or never
  returns: \<open>mutex.Lock\<close> waits while the mutex is held, and \<open>db.Begin(true)\<close> waits
  while an earlier write transaction is open. The deferred \<open>mutex.Unlock\<close> runs on every
  return and on the panic. A transaction is closed by \<open>Commit\<close> (also when it fails);
  the function never calls \<open>Rollback\<close>.
\<close>

datatype count_result = Return bool "error option" | Panic | Block

definition unlock :: "state \<Rightarrow> state" where
  "unlock s = s\<lparr>mutexLocked := False\<rparr>"

definition checkLGTMCount :: "flags \<Rightarrow> env \<Rightarrow> Comment \<Rightarrow> state \<Rightarrow> count_result \<times> state" where
  "checkLGTMCount fl ev comment s0 =
     (if mutexLocked s0 then (Block, s0)
      else
        (let s1 = s0\<lparr>mutexLocked := True\<rparr> in
         if txOpen s1 then (Block, s1)
         else
           (case beginErr ev of
              Some e \<Rightarrow> (Return False (Some e), unlock s1)
            | None \<Rightarrow>
               (let s2 = s1\<lparr>txOpen := True\<rparr> in
                (case bucketErr ev of
                   Some e \<Rightarrow> (Return False (Some e), unlock s2)
                 | None \<Rightarrow>
                    (let bucket = (case db s2 bucketName of None \<Rightarrow> Map.empty | Some b \<Rightarrow> b);
                         countKey = Itoa (Iid comment);
                         countByte = (case bucket countKey of None \<Rightarrow> [] | Some v \<Rightarrow> v);
                         parsed = (if length countByte > 0 then Atoi countByte else Inr 0);
                         s3 = (case parsed of
                                 Inl _ \<Rightarrow> logf WarnLevel ''wrong count'' s2
                               | Inr _ \<Rightarrow> s2);
                         count = goInc (case parsed of Inl _ \<Rightarrow> 0 | Inr n \<Rightarrow> n)
                     in
                     (case putErr ev of
                        Some e \<Rightarrow> (Return False (Some e), unlock s3)
                      | None \<Rightarrow>
                         (if validLGTMCount fl = 0 then (Panic, unlock s3)
                          else
                            (let checkStatus = (goRem count (validLGTMCount fl) = 0) in
                             (case commitErr ev of
                                Some e \<Rightarrow>
                                  (Return checkStatus (Some e), unlock (s3\<lparr>txOpen := False\<rparr>))
                              | None \<Rightarrow>
                                  (Return checkStatus None,
                                   unlock (logf InfoLevel ''MR count''
                                     (s3\<lparr>txOpen := False,
                                         db := (db s3)(bucketName \<mapsto>
                                                 bucket(countKey \<mapsto> Itoa count))\<rparr>)))))))))))))"

text \<open>The entry of merge request \<open>m\<close> in the committed store.\<close>

definition entry :: "state \<Rightarrow> int \<Rightarrow> string option" where
  "entry s m = (case db s bucketName of None \<Rightarrow> None | Some b \<Rightarrow> b (Itoa m))"

text \<open>\<open>k\<close> sequential calls for the same comment; the results in call order.\<close>

fun calls :: "flags \<Rightarrow> env \<Rightarrow> Comment \<Rightarrow> nat \<Rightarrow> state \<Rightarrow> count_result list \<times> state" where
  "calls fl ev comment 0 s = ([], s)"
| "calls fl ev comment (Suc k) s =
     (case calls fl ev comment k s of
        (rs, s1) \<Rightarrow>
          (case checkLGTMCount fl ev comment s1 of
             (r, s2) \<Rightarrow> (rs @ [r], s2)))"

section \<open>Merge trigger\<close>

definition mergePath :: "int \<Rightarrow> int \<Rightarrow> string" where
  "mergePath projectID mergeRequestIID =
     ''/api/v4/projects/'' @ Itoa projectID @ ''/merge_requests/'' @ Itoa mergeRequestIID
       @ ''/merge''"

text \<open>
  \<open>acceptMergeRequest\<close> assigns the extended path to the global \<open>glURL\<close> and builds the
  request from it. \<open>json.Marshal\<close> of a \<open>map[string]string\<close> cannot fail.
\<close>

definition acceptMergeRequest ::
  "flags \<Rightarrow> env \<Rightarrow> int \<Rightarrow> int \<Rightarrow> string \<Rightarrow> state \<Rightarrow> state" where
  "acceptMergeRequest fl ev projectID mergeRequestIID shouldRemoveSourceBranch s0 =
     (let params = [(''should_remove_source_branch'', shouldRemoveSourceBranch)];
          s1 = s0\<lparr>glURL := (glURL s0)\<lparr>Path := Path (glURL s0)
                   @ mergePath projectID mergeRequestIID\<rparr>\<rparr>
      in
      (case newRequestErr ev of
         Some e \<Rightarrow> logf ErrorLevel ''http NewRequest failed'' s1
       | None \<Rightarrow>
          (let req = \<lparr>Method = ''PUT'', Url = URL_String (glURL s1),
                      Header = [(''Conntent-Type'', ''application/json''),
                                (''PRIVATE-TOKEN'', privateToken fl)],
                      Body = params\<rparr>;
               s2 = s1\<lparr>sent := sent s1 @ [req]\<rparr>
           in
           (case httpDo ev of
              Inl e \<Rightarrow> logf ErrorLevel ''execute request failed'' s2
            | Inr (code, status) \<Rightarrow>
               (if code = 200 then logf InfoLevel ''accept merge request successfully'' s2
                else if code = 405 then
                  logf WarnLevel ''it has some conflicts and can not be merged'' s2
                else if code = 406 then
                  logf WarnLevel ''merge request is already merged or closed'' s2
                else logf ErrorLevel ''accept merge failed'' s2)))))"

section \<open>Event classifier\<close>

text \<open>
  \<open>checkLgtm\<close> always returns nil when it returns; the process may also exit
  (\<open>Fatalf\<close>), crash (panic) or wait for ever.
\<close>

datatype proc_result = Returned | Exited | Crashed | Hung

definition checkLgtm :: "flags \<Rightarrow> env \<Rightarrow> Comment \<Rightarrow> state \<Rightarrow> proc_result \<times> state" where
  "checkLgtm fl ev comment s0 =
     (if ObjectKind comment \<noteq> ObjectNote then (Returned, s0)
      else
        (case checkReviewers ev comment s0 of
           (Fatal, s1) \<Rightarrow> (Exited, s1)
         | (Ret False, s1) \<Rightarrow> (Returned, s1)
         | (Ret True, s1) \<Rightarrow>
            (if NoteableType comment \<noteq> NoteableTypeMergeRequest then (Returned, s1)
             else if ToUpper (unicodeUpper ev) (Note comment) \<noteq> lgtmNote fl
             then (Returned, s1)
             else
               (case checkLGTMCount fl ev comment (logf InfoLevel ''comment'' s1) of
                  (Block, s3) \<Rightarrow> (Hung, s3)
                | (Panic, s3) \<Rightarrow> (Crashed, s3)
                | (Return canbeMerged (Some e), s3) \<Rightarrow>
                    (Returned, logf ErrorLevel ''check LGTM count failed'' s3)
                | (Return canbeMerged None, s3) \<Rightarrow>
                    (if canbeMerged \<and> MergeStatus comment = StatusCanbeMerged
                     then (Returned,
                           acceptMergeRequest fl ev (ProjectID comment) (Iid comment)
                             (ForceRemoveSourceBranch comment)
                             (logf InfoLevel ''The MR can be merged.'' s3))
                     else (Returned, logf InfoLevel ''The MR can not be merged.'' s3))))))"

section \<open>Webhook endpoint\<close>

text \<open>
  An inbound request: the method, the value of \<open>r.Header.Get("Content-Type")\<close> (empty
  when the header is absent) and the body (\<open>None\<close> for a nil \<open>r.Body\<close>).
\<close>

record HttpRequest =
  reqMethod :: string
  reqContentType :: string
  reqBody :: "string option"

record HttpResponse =
  respStatus :: nat
  respBody :: string

text \<open>\<open>fmt.Fprintf(w, errMsg)\<close> uses the message as the format string.\<close>

definition Fprintf0 :: "env \<Rightarrow> string \<Rightarrow> string" where
  "Fprintf0 ev format = doPrintf0 (fmtVerbs ev) format"

text \<open>The deferred function of \<open>LGTMHandler\<close>, run with the final \<open>errRet\<close>.\<close>

definition respond :: "env \<Rightarrow> error option \<Rightarrow> state \<Rightarrow> HttpResponse \<times> state" where
  "respond ev errRet s =
     (case errRet of
        Some e \<Rightarrow>
          (\<lparr>respStatus = 400, respBody = Fprintf0 ev (''error occurs:'' @ e)\<rparr>,
           logf ErrorLevel ''error response'' s)
      | None \<Rightarrow> (\<lparr>respStatus = 200, respBody = RespOK\<rparr>, s))"

text \<open>
  \<open>LGTMHandler\<close> returns the response and the argument of the goroutine it starts
  (\<open>go checkLgtm(comment)\<close>), if any.
\<close>

definition LGTMHandler ::
  "env \<Rightarrow> HttpRequest \<Rightarrow> state \<Rightarrow> (HttpResponse \<times> Comment option) \<times> state" where
  "LGTMHandler ev r s0 =
     (let s1 = logf InfoLevel ''access'' s0 in
      if reqContentType r \<noteq> ''application/json'' then
        (case respond ev (Some ErrInvalidContentType) s1 of (w, s2) \<Rightarrow> ((w, None), s2))
      else if reqMethod r \<noteq> ''POST'' then
        (case respond ev (Some ErrInvalidRequest) s1 of (w, s2) \<Rightarrow> ((w, None), s2))
      else
        case reqBody r of
          None \<Rightarrow>
            (case respond ev (Some ErrInvalidRequest) s1 of (w, s2) \<Rightarrow> ((w, None), s2))
        | Some b \<Rightarrow>
            (case jsonDecode ev b of
               Inl err \<Rightarrow> (case respond ev (Some err) s1 of (w, s2) \<Rightarrow> ((w, None), s2))
             | Inr comment \<Rightarrow>
                 (case respond ev None s1 of (w, s2) \<Rightarrow> ((w, Some comment), s2))))"

section \<open>Notions used in the statements\<close>

text \<open>The bucket \<open>lgtm\<close> of the committed store, empty when it does not exist yet.\<close>

definition bucketOf :: "state \<Rightarrow> string \<rightharpoonup> string" where
  "bucketOf s = (case db s bucketName of None \<Rightarrow> Map.empty | Some b \<Rightarrow> b)"

text \<open>
  The count that \<open>checkLGTMCount\<close> reads for merge request \<open>m\<close>: 0 when the entry is
  absent, empty or not accepted by \<open>Atoi\<close>.
\<close>

definition storedCount :: "state \<Rightarrow> int \<Rightarrow> int" where
  "storedCount s m =
     (case entry s m of
        None \<Rightarrow> 0
      | Some v \<Rightarrow> (if v = [] then 0 else (case Atoi v of Inl _ \<Rightarrow> 0 | Inr n \<Rightarrow> n)))"

text \<open>No bolt call of the invocation fails.\<close>

definition storageOk :: "env \<Rightarrow> bool" where
  "storageOk ev =
     (beginErr ev = None \<and> bucketErr ev = None \<and> putErr ev = None \<and> commitErr ev = None)"

subsection \<open>A concrete deployment\<close>

definition exFlags :: flags where
  "exFlags = \<lparr>privateToken = ''secret'', validLGTMCount = 2, lgtmNote = NoteLGTM\<rparr>"

definition exEnv :: env where
  "exEnv = \<lparr>reviewersFile = ReadFailed, beginErr = None, bucketErr = None, putErr = None,
     commitErr = None, newRequestErr = None, httpDo = Inr (200, ''200 OK''),
     unicodeUpper = (\<lambda>s. s), jsonDecode = (\<lambda>b. Inl ''EOF''), fmtVerbs = (\<lambda>s. s)\<rparr>"

definition exState :: state where
  "exState = \<lparr>db = Map.empty, txOpen = False, mutexLocked = False, reviewers = [],
     glURL = \<lparr>Scheme = ''https'', Host = ''gitlab.example.com'', Path = ''''\<rparr>,
     sent = [], logs = []\<rparr>"

definition exComment :: Comment where
  "exComment = \<lparr>ObjectKind = ''note'', Username = ''alice'', ProjectID = 5, Note = ''lgtm'',
     NoteableType = ''MergeRequest'', Iid = 42, MergeStatus = ''can_be_merged'',
     ForceRemoveSourceBranch = ''true''\<rparr>"

text \<open>A store that already holds counts for merge requests 42 and 7.\<close>

definition exStored :: state where
  "exStored = exState\<lparr>db := [bucketName \<mapsto> [''42'' \<mapsto> ''3'', ''7'' \<mapsto> ''1'']]\<rparr>"

text \<open>The call of \<open>checkLGTMCount\<close> that \<open>checkLgtm\<close> makes once the four checks have passed.\<close>

definition countCall :: "flags \<Rightarrow> env \<Rightarrow> Comment \<Rightarrow> state \<Rightarrow> count_result \<times> state" where
  "countCall fl ev comment s =
     checkLGTMCount fl ev comment (logf InfoLevel ''comment'' (snd (checkReviewers ev comment s)))"

text \<open>reviewers.yaml lists alice and bob.\<close>

definition exReviewersEnv :: env where
  "exReviewersEnv = exEnv\<lparr>reviewersFile := Yaml (Some [''alice'', ''bob''])\<rparr>"

text \<open>An approval comment on a merge request that cannot be merged yet.\<close>

definition exUnmergeable :: Comment where
  "exUnmergeable = exComment\<lparr>MergeStatus := ''cannot_be_merged''\<rparr>"


text \<open>
  A POST of the one-byte body \<open>%\<close>, and the answer of \<open>encoding/json\<close> to it: a
  syntax error whose message quotes the offending byte.
\<close>

definition exPercentRequest :: HttpRequest where
  "exPercentRequest = \<lparr>reqMethod = ''POST'', reqContentType = ''application/json'',
     reqBody = Some ''%''\<rparr>"

definition exPercentEnv :: env where
  "exPercentEnv = exEnv\<lparr>jsonDecode := (jsonDecode exEnv)
     (''%'' := Inl ''invalid character '%' looking for beginning of value'')\<rparr>"

section \<open>Conversions: round trip and injectivity\<close>

lemma digit_char_simps:
  "digit_char 0 = CHR ''0''" "digit_char 1 = CHR ''1''" "digit_char 2 = CHR ''2''"
  "digit_char 3 = CHR ''3''" "digit_char 4 = CHR ''4''" "digit_char 5 = CHR ''5''"
  "digit_char 6 = CHR ''6''" "digit_char 7 = CHR ''7''" "digit_char 8 = CHR ''8''"
  "digit_char 9 = CHR ''9''" "digit_char (Suc 0) = CHR ''1''"
  by (simp_all add: digit_char_def char_of_def bit_0)

lemma formatBits10_nonempty: "formatBits10 n \<noteq> []"
  by (subst formatBits10.simps) simp

lemma isDigit_digit_char: "d < 10 \<Longrightarrow> isDigit (digit_char d)"
  by (simp add: isDigit_def digit_char_def)

lemma digitVal_digit_char: "d < 10 \<Longrightarrow> digitVal (digit_char d) = d"
  by (simp add: digitVal_def digit_char_def)

lemma formatBits10_digits: "list_all isDigit (formatBits10 n)"
proof (induction n rule: formatBits10.induct)
  case (1 u)
  show ?case
  proof (cases "u < 10")
    case True
    then show ?thesis
      by (subst formatBits10.simps) (simp add: isDigit_digit_char)
  next
    case False
    with 1 show ?thesis
      by (subst formatBits10.simps) (simp add: isDigit_digit_char)
  qed
qed

lemma parseDigits_snoc: "parseDigits (ds @ [c]) = 10 * parseDigits ds + digitVal c"
  by (simp add: parseDigits_def)

lemma parseDigits_formatBits10: "parseDigits (formatBits10 n) = n"
proof (induction n rule: formatBits10.induct)
  case (1 u)
  show ?case
  proof (cases "u < 10")
    case True
    then show ?thesis
      by (subst formatBits10.simps) (simp add: parseDigits_def digitVal_digit_char)
  next
    case False
    with 1 have "parseDigits (formatBits10 (u div 10)) = u div 10" by simp
    with False show ?thesis
      by (subst formatBits10.simps) (simp add: parseDigits_snoc digitVal_digit_char)
  qed
qed

lemma formatBits10_inj: "formatBits10 a = formatBits10 b \<Longrightarrow> a = b"
  by (metis parseDigits_formatBits10)

lemma hd_formatBits10_digit: "isDigit (hd (formatBits10 n))"
  using formatBits10_digits [of n] formatBits10_nonempty [of n]
  by (cases "formatBits10 n") simp_all

lemma minus_not_digit: "\<not> isDigit CHR ''-''"
  by (simp add: isDigit_def)

lemma plus_not_digit: "\<not> isDigit CHR ''+''"
  by (simp add: isDigit_def)

lemma hd_formatBits10_not_sign:
  "hd (formatBits10 n) \<noteq> CHR ''-''" "hd (formatBits10 n) \<noteq> CHR ''+''"
  using hd_formatBits10_digit [of n] minus_not_digit plus_not_digit by metis+

lemma Itoa_nonempty: "Itoa i \<noteq> []"
  by (simp add: Itoa_def formatBits10_nonempty)

lemma Itoa_inj: "Itoa i = Itoa j \<Longrightarrow> i = j"
proof -
  assume eq: "Itoa i = Itoa j"
  consider "i < 0" "j < 0" | "i < 0" "0 \<le> j" | "0 \<le> i" "j < 0" | "0 \<le> i" "0 \<le> j"
    by linarith
  then show ?thesis
  proof cases
    case 1
    with eq have "nat (- i) = nat (- j)"
      by (simp add: Itoa_def formatBits10_inj)
    with 1 show ?thesis by simp
  next
    case 2
    then have "hd (Itoa i) = CHR ''-''" and "Itoa j = formatBits10 (nat j)"
      by (simp_all add: Itoa_def)
    with eq have "hd (formatBits10 (nat j)) = CHR ''-''" by simp
    then show ?thesis using hd_formatBits10_not_sign(1) by blast
  next
    case 3
    then have "hd (Itoa j) = CHR ''-''" and "Itoa i = formatBits10 (nat i)"
      by (simp_all add: Itoa_def)
    with eq have "hd (formatBits10 (nat i)) = CHR ''-''" by simp
    then show ?thesis using hd_formatBits10_not_sign(1) by blast
  next
    case 4
    with eq have "nat i = nat j"
      by (simp add: Itoa_def formatBits10_inj)
    with 4 show ?thesis by simp
  qed
qed

lemma Atoi_Itoa: "minInt \<le> i \<Longrightarrow> i \<le> maxInt \<Longrightarrow> Atoi (Itoa i) = Inr i"
proof (cases "i < 0")
  case True
  assume "minInt \<le> i"
  with True show ?thesis
    by (simp add: Atoi_def Itoa_def Let_def formatBits10_nonempty formatBits10_digits
        parseDigits_formatBits10)
next
  case False
  assume "i \<le> maxInt"
  with False show ?thesis
    using hd_formatBits10_not_sign [of "nat i"]
    by (simp add: Atoi_def Itoa_def Let_def formatBits10_nonempty formatBits10_digits
        parseDigits_formatBits10)
qed

section \<open>One successful call of checkLGTMCount\<close>

lemma entry_bucketOf: "entry s m = bucketOf s (Itoa m)"
  by (simp add: entry_def bucketOf_def split: option.splits)

lemma checkLGTMCount_success_fst:
  assumes "\<not> mutexLocked s" "\<not> txOpen s" "storageOk ev" "validLGTMCount fl \<noteq> 0"
  shows "fst (checkLGTMCount fl ev c s) =
           Return (goRem (goInc (storedCount s (Iid c))) (validLGTMCount fl) = 0) None"
  using assms
  by (simp add: checkLGTMCount_def storageOk_def storedCount_def entry_def Let_def
      split: option.splits sum.splits)

lemma checkLGTMCount_success_db:
  assumes "\<not> mutexLocked s" "\<not> txOpen s" "storageOk ev" "validLGTMCount fl \<noteq> 0"
  shows "db (snd (checkLGTMCount fl ev c s)) =
           (db s)(bucketName \<mapsto> (bucketOf s)(Itoa (Iid c) \<mapsto> Itoa (goInc (storedCount s (Iid c)))))"
  using assms
  by (simp add: checkLGTMCount_def storageOk_def storedCount_def entry_def bucketOf_def Let_def
      unlock_def logf_def split: option.splits sum.splits)

lemma checkLGTMCount_success_frame:
  assumes "\<not> mutexLocked s" "\<not> txOpen s" "storageOk ev" "validLGTMCount fl \<noteq> 0"
  shows "\<not> mutexLocked (snd (checkLGTMCount fl ev c s))"
    and "\<not> txOpen (snd (checkLGTMCount fl ev c s))"
    and "reviewers (snd (checkLGTMCount fl ev c s)) = reviewers s"
    and "glURL (snd (checkLGTMCount fl ev c s)) = glURL s"
    and "sent (snd (checkLGTMCount fl ev c s)) = sent s"
  using assms
  by (simp_all add: checkLGTMCount_def storageOk_def Let_def
      unlock_def logf_def split: option.splits sum.splits)


lemma goRem_nonneg: "0 \<le> a \<Longrightarrow> 0 < b \<Longrightarrow> goRem a b = a mod b"
  by (cases "a = 0") (simp_all add: goRem_def)

lemma goInc_in_range: "minInt \<le> c \<Longrightarrow> c < maxInt \<Longrightarrow> goInc c = c + 1"
  by (simp add: goInc_def wrap64_def minInt_def maxInt_def)

lemma storedCount_Itoa:
  "entry s m = Some (Itoa n) \<Longrightarrow> minInt \<le> n \<Longrightarrow> n \<le> maxInt \<Longrightarrow> storedCount s m = n"
  by (simp add: storedCount_def Itoa_nonempty Atoi_Itoa)

lemma storedCount_absent: "entry s m = None \<Longrightarrow> storedCount s m = 0"
  by (simp add: storedCount_def)

lemma entry_after_success:
  assumes "\<not> mutexLocked s" "\<not> txOpen s" "storageOk ev" "validLGTMCount fl \<noteq> 0"
  shows "entry (snd (checkLGTMCount fl ev c s)) m =
           (if m = Iid c then Some (Itoa (goInc (storedCount s (Iid c)))) else entry s m)"
  using checkLGTMCount_success_db [OF assms, of c] Itoa_inj [of m "Iid c"]
  by (auto simp add: entry_def bucketOf_def split: option.splits)

lemma calls_invariant:
  assumes "1 \<le> validLGTMCount fl" "storageOk ev" "\<not> mutexLocked s" "\<not> txOpen s"
    and "entry s (Iid c) = None" "int k \<le> maxInt"
  shows "fst (calls fl ev c k s) =
           map (\<lambda>j. Return (int j mod validLGTMCount fl = 0) None) [1..<Suc k]
         \<and> \<not> mutexLocked (snd (calls fl ev c k s))
         \<and> \<not> txOpen (snd (calls fl ev c k s))
         \<and> entry (snd (calls fl ev c k s)) (Iid c) = (if k = 0 then None else Some (Itoa (int k)))"
  using assms(6)
proof (induction k)
  case 0
  show ?case using assms by simp
next
  case (Suc k)
  let ?sk = "snd (calls fl ev c k s)"
  from Suc have k: "int k < maxInt" and IH:
    "fst (calls fl ev c k s) = map (\<lambda>j. Return (int j mod validLGTMCount fl = 0) None) [1..<Suc k]"
    "\<not> mutexLocked ?sk" "\<not> txOpen ?sk"
    "entry ?sk (Iid c) = (if k = 0 then None else Some (Itoa (int k)))"
    by simp_all
  have t: "validLGTMCount fl \<noteq> 0" "0 < validLGTMCount fl" using assms(1) by simp_all
  have sc: "storedCount ?sk (Iid c) = int k"
  proof (cases "k = 0")
    case True
    with IH(4) show ?thesis by (simp add: storedCount_absent)
  next
    case False
    with IH(4) k show ?thesis
      by (intro storedCount_Itoa) (simp_all add: minInt_def)
  qed
  have inc: "goInc (int k) = int k + 1"
    using k by (intro goInc_in_range) (simp_all add: minInt_def)
  have r: "fst (checkLGTMCount fl ev c ?sk) =
        Return (int (Suc k) mod validLGTMCount fl = 0) None"
    using checkLGTMCount_success_fst [OF IH(2) IH(3) assms(2) t(1), of c] sc inc t(2)
    by (simp add: goRem_nonneg add.commute)
  have e: "entry (snd (checkLGTMCount fl ev c ?sk)) (Iid c) = Some (Itoa (int (Suc k)))"
    using entry_after_success [OF IH(2) IH(3) assms(2) t(1), of c "Iid c"] sc inc
    by (simp add: add.commute)
  have fr: "\<not> mutexLocked (snd (checkLGTMCount fl ev c ?sk))"
      "\<not> txOpen (snd (checkLGTMCount fl ev c ?sk))"
    using checkLGTMCount_success_frame [OF IH(2) IH(3) assms(2) t(1), of c] by simp_all
  show ?case
    using IH(1) r e fr
    by (simp add: case_prod_unfold)
qed

section \<open>Sequential calls of checkLGTMCount\<close>

text \<open>
  C1. For every merge request \<open>m\<close>, starting from a store with no entry for \<open>m\<close>,
  \<open>k\<close> sequential calls of \<open>checkLGTMCount\<close> with threshold \<open>t \<ge> 1\<close>, none of whose
  storage steps fails, return \<open>true\<close> on exactly the calls whose number \<open>j\<close> satisfies
  \<open>j mod t = 0\<close>, each without error, and the count stored after the \<open>k\<close>-th call is \<open>k\<close>.
  The number of calls is within the range of Go's \<open>int\<close>, the type of the count.
\<close>

theorem checkLGTMCount_sequential:
  assumes "1 \<le> validLGTMCount fl" and "storageOk ev"
    and "\<not> mutexLocked s" and "\<not> txOpen s"
    and "entry s (Iid comment) = None" and "int k \<le> maxInt"
  shows "fst (calls fl ev comment k s) =
           map (\<lambda>j. Return (int j mod validLGTMCount fl = 0) None) [1..<Suc k]
         \<and> storedCount (snd (calls fl ev comment k s)) (Iid comment) = int k
         \<and> entry (snd (calls fl ev comment k s)) (Iid comment) =
             (if k = 0 then None else Some (Itoa (int k)))"
proof -
  note inv = calls_invariant [OF assms]
  have "storedCount (snd (calls fl ev comment k s)) (Iid comment) = int k"
  proof (cases "k = 0")
    case True
    with inv show ?thesis by (simp add: storedCount_absent)
  next
    case False
    with inv assms(6) show ?thesis
      by (intro storedCount_Itoa) (simp_all add: minInt_def)
  qed
  with inv show ?thesis by simp
qed

theorem checkLGTMCount_sequential_witness:
  "1 \<le> validLGTMCount exFlags \<and> storageOk exEnv
   \<and> \<not> mutexLocked exState \<and> \<not> txOpen exState
   \<and> entry exState (Iid exComment) = None \<and> int 4 \<le> maxInt
   \<and> fst (calls exFlags exEnv exComment 4 exState) =
       [Return False None, Return True None, Return False None, Return True None]
   \<and> storedCount (snd (calls exFlags exEnv exComment 4 exState)) 42 = 4
   \<and> entry (snd (calls exFlags exEnv exComment 4 exState)) 42 = Some ''4''"
proof -
  have h: "1 \<le> validLGTMCount exFlags" "storageOk exEnv"
    "\<not> mutexLocked exState" "\<not> txOpen exState"
    "entry exState (Iid exComment) = None" "int 4 \<le> maxInt"
    by (simp_all add: exFlags_def exEnv_def exState_def exComment_def storageOk_def
        entry_def maxInt_def)
  have i: "Itoa 4 = ''4''"
    by (simp add: Itoa_def formatBits10.simps digit_char_simps)
  have u: "[1..<Suc 4] = [1, 2, 3, 4]"
    by (simp add: upt_rec)
  show ?thesis
    using h checkLGTMCount_sequential [OF h] i u
    by (simp add: exFlags_def exComment_def)
qed

section \<open>Evaluation of the conversions on small numbers\<close>

lemma Itoa_examples:
  "Itoa 1 = ''1''" "Itoa 4 = ''4''" "Itoa 7 = ''7''" "Itoa 42 = ''42''" "Itoa 5 = ''5''"
  by (simp_all add: Itoa_def formatBits10.simps digit_char_simps)

lemma Atoi_examples: "Atoi ''3'' = Inr 3" "Atoi ''1'' = Inr 1"
  by (simp_all add: Atoi_def isDigit_def parseDigits_def digitVal_def maxInt_def)

section \<open>Frame of a successful call\<close>

lemma Atoi_range: "Atoi v = Inr n \<Longrightarrow> minInt \<le> n \<and> n \<le> maxInt"
  by (auto simp add: Atoi_def Let_def minInt_def maxInt_def split: if_splits)

lemma Atoi_Nil: "Atoi [] = Inl ErrSyntax"
  by (simp add: Atoi_def)

lemma storedCount_range: "minInt \<le> storedCount s m \<and> storedCount s m \<le> maxInt"
proof (cases "entry s m")
  case None
  then show ?thesis by (simp add: storedCount_def minInt_def maxInt_def)
next
  case (Some v)
  show ?thesis
  proof (cases "Atoi v")
    case (Inl e)
    with Some show ?thesis by (simp add: storedCount_def minInt_def maxInt_def)
  next
    case (Inr n)
    with Some Atoi_range [OF Inr] show ?thesis
      by (simp add: storedCount_def minInt_def maxInt_def)
  qed
qed

lemma success_needs:
  assumes "fst (checkLGTMCount fl ev c s) = Return b None"
  shows "\<not> mutexLocked s \<and> \<not> txOpen s \<and> storageOk ev \<and> validLGTMCount fl \<noteq> 0"
  using assms
  by (simp add: checkLGTMCount_def storageOk_def Let_def split: if_splits option.splits)

lemma bucketOf_after_success:
  assumes "\<not> mutexLocked s" "\<not> txOpen s" "storageOk ev" "validLGTMCount fl \<noteq> 0"
  shows "bucketOf (snd (checkLGTMCount fl ev c s)) =
           (bucketOf s)(Itoa (Iid c) \<mapsto> Itoa (goInc (storedCount s (Iid c))))"
  using checkLGTMCount_success_db [OF assms, of c]
  by (simp add: bucketOf_def)

text \<open>
  C10. A call of \<open>checkLGTMCount\<close> for merge request \<open>m\<close> that returns without error
  changes only the entry whose key is the decimal string of \<open>m\<close>: the new value is the
  decimal string of the incremented previous count, which is one plus the previous value
  whenever that value is below the largest \<open>int\<close> (the increment is Go's \<open>count++\<close>),
  and the previous count is 0, so the new value 1, when the entry is absent or is not
  accepted by \<open>Atoi\<close>. Every other entry of the bucket, in particular the entry of every
  other merge request, and every other bucket are unchanged.
\<close>

theorem checkLGTMCount_frame:
  assumes "fst (checkLGTMCount fl ev comment s) = Return b None"
  shows "entry (snd (checkLGTMCount fl ev comment s)) (Iid comment) =
           Some (Itoa (goInc (storedCount s (Iid comment))))
         \<and> (storedCount s (Iid comment) < maxInt \<longrightarrow>
              goInc (storedCount s (Iid comment)) = storedCount s (Iid comment) + 1)
         \<and> (entry s (Iid comment) = None \<longrightarrow> storedCount s (Iid comment) = 0)
         \<and> (\<forall>v e. entry s (Iid comment) = Some v \<and> Atoi v = Inl e \<longrightarrow>
              storedCount s (Iid comment) = 0)
         \<and> (\<forall>v n. entry s (Iid comment) = Some v \<and> Atoi v = Inr n \<longrightarrow>
              storedCount s (Iid comment) = n)
         \<and> (\<forall>m. m \<noteq> Iid comment \<longrightarrow>
              entry (snd (checkLGTMCount fl ev comment s)) m = entry s m)
         \<and> (\<forall>key. key \<noteq> Itoa (Iid comment) \<longrightarrow>
              bucketOf (snd (checkLGTMCount fl ev comment s)) key = bucketOf s key)
         \<and> (\<forall>name. name \<noteq> bucketName \<longrightarrow>
              db (snd (checkLGTMCount fl ev comment s)) name = db s name)"
proof -
  note n = success_needs [OF assms]
  then have pre: "\<not> mutexLocked s" "\<not> txOpen s" "storageOk ev" "validLGTMCount fl \<noteq> 0"
    by simp_all
  have 1: "entry (snd (checkLGTMCount fl ev comment s)) (Iid comment) =
           Some (Itoa (goInc (storedCount s (Iid comment))))"
    using entry_after_success [OF pre, of comment "Iid comment"] by simp
  have 2: "storedCount s (Iid comment) < maxInt \<longrightarrow>
              goInc (storedCount s (Iid comment)) = storedCount s (Iid comment) + 1"
    using storedCount_range [of s "Iid comment"] goInc_in_range by blast
  have 3: "entry s (Iid comment) = None \<longrightarrow> storedCount s (Iid comment) = 0"
    by (simp add: storedCount_absent)
  have 4: "\<forall>v e. entry s (Iid comment) = Some v \<and> Atoi v = Inl e \<longrightarrow>
              storedCount s (Iid comment) = 0"
    by (auto simp add: storedCount_def)
  have 5: "\<forall>v n. entry s (Iid comment) = Some v \<and> Atoi v = Inr n \<longrightarrow>
              storedCount s (Iid comment) = n"
    using Atoi_Nil by (auto simp add: storedCount_def)
  have 6: "\<forall>m. m \<noteq> Iid comment \<longrightarrow>
              entry (snd (checkLGTMCount fl ev comment s)) m = entry s m"
    using entry_after_success [OF pre, of comment] by simp
  have 7: "\<forall>key. key \<noteq> Itoa (Iid comment) \<longrightarrow>
              bucketOf (snd (checkLGTMCount fl ev comment s)) key = bucketOf s key"
    using bucketOf_after_success [OF pre, of comment] by simp
  have 8: "\<forall>name. name \<noteq> bucketName \<longrightarrow>
              db (snd (checkLGTMCount fl ev comment s)) name = db s name"
    using checkLGTMCount_success_db [OF pre, of comment] by simp
  from 1 2 3 4 5 6 7 8 show ?thesis by blast
qed

theorem checkLGTMCount_frame_witness:
  "fst (checkLGTMCount exFlags exEnv exComment exStored) = Return True None
   \<and> entry (snd (checkLGTMCount exFlags exEnv exComment exStored)) 42 = Some ''4''
   \<and> entry (snd (checkLGTMCount exFlags exEnv exComment exStored)) 7 = Some ''1''"
proof -
  have e: "entry exStored 42 = Some ''3''" "entry exStored 7 = Some ''1''"
    by (simp_all add: entry_def exStored_def exState_def Itoa_examples)
  then have c: "storedCount exStored 42 = 3"
    by (simp add: storedCount_def Atoi_examples)
  have i: "goInc 3 = 4"
    by (simp add: goInc_def wrap64_def)
  have h: "fst (checkLGTMCount exFlags exEnv exComment exStored) = Return True None"
    using checkLGTMCount_success_fst [of exStored exEnv exFlags exComment] c i
    by (simp add: exStored_def exState_def exEnv_def exFlags_def exComment_def storageOk_def
        goRem_def)
  show ?thesis
    using h checkLGTMCount_frame [OF h] e c i
    by (simp add: exComment_def Itoa_examples)
qed

section \<open>Storage failures\<close>

lemma checkLGTMCount_unlocks:
  "\<not> mutexLocked s \<Longrightarrow> fst (checkLGTMCount fl ev c s) \<noteq> Block \<Longrightarrow>
     \<not> mutexLocked (snd (checkLGTMCount fl ev c s))"
  by (simp add: checkLGTMCount_def unlock_def logf_def Let_def
      split: if_splits option.splits sum.splits)

lemma checkLGTMCount_error_keeps_store:
  "fst (checkLGTMCount fl ev c s) = Return b (Some e) \<Longrightarrow>
     db (snd (checkLGTMCount fl ev c s)) = db s"
  by (simp add: checkLGTMCount_def unlock_def logf_def Let_def
      split: if_splits option.splits sum.splits)

lemma checkLGTMCount_commit_failure:
  assumes "\<not> mutexLocked s" "\<not> txOpen s" "beginErr ev = None" "bucketErr ev = None"
    and "putErr ev = None" "commitErr ev = Some e" "validLGTMCount fl \<noteq> 0"
  shows "fst (checkLGTMCount fl ev c s) =
           Return (goRem (goInc (storedCount s (Iid c))) (validLGTMCount fl) = 0) (Some e)"
    and "\<not> txOpen (snd (checkLGTMCount fl ev c s))"
  using assms
  by (simp_all add: checkLGTMCount_def storedCount_def entry_def unlock_def logf_def Let_def
      split: option.splits sum.splits)

text \<open>
  C5. The claim asks that a failing storage step aborts the transaction. At a failing
  \<open>Put\<close> the function returns the error and releases the mutex, but the write
  transaction it began is left open: no \<open>Rollback\<close> is called. The next call then
  waits for ever in \<open>db.Begin(true)\<close>, holding the mutex.
\<close>

theorem checkLGTMCount_put_failure:
  "checkLGTMCount exFlags (exEnv\<lparr>putErr := Some ''incompatible value''\<rparr>) exComment exState =
     (Return False (Some ''incompatible value''), exState\<lparr>txOpen := True\<rparr>)
   \<and> checkLGTMCount exFlags exEnv exComment (exState\<lparr>txOpen := True\<rparr>) =
     (Block, exState\<lparr>txOpen := True, mutexLocked := True\<rparr>)"
  by (simp add: checkLGTMCount_def exEnv_def exState_def unlock_def Let_def)

section \<open>Reviewer policy and classifier: what each step leaves unchanged\<close>


lemma checkReviewers_frame:
  "db (snd (checkReviewers ev c s)) = db s"
  "sent (snd (checkReviewers ev c s)) = sent s"
  "txOpen (snd (checkReviewers ev c s)) = txOpen s"
  "mutexLocked (snd (checkReviewers ev c s)) = mutexLocked s"
  "glURL (snd (checkReviewers ev c s)) = glURL s"
  by (simp_all add: checkReviewers_def getReviewers_def logf_def
      split: reviewers_file.splits option.splits)

lemma logf_frame:
  "db (logf l m s) = db s" "sent (logf l m s) = sent s" "txOpen (logf l m s) = txOpen s"
  "mutexLocked (logf l m s) = mutexLocked s" "glURL (logf l m s) = glURL s"
  "reviewers (logf l m s) = reviewers s"
  by (simp_all add: logf_def)

lemma entry_cong: "db s = db s' \<Longrightarrow> entry s m = entry s' m"
  by (simp add: entry_def)

lemma storedCount_cong: "db s = db s' \<Longrightarrow> storedCount s m = storedCount s' m"
  by (simp add: storedCount_def entry_def)

lemma checkLGTMCount_sent: "sent (snd (checkLGTMCount fl ev c s)) = sent s"
  by (simp add: checkLGTMCount_def unlock_def logf_def Let_def
      split: if_splits option.splits sum.splits)

lemma acceptMergeRequest_db: "db (acceptMergeRequest fl ev p i r s) = db s"
  by (simp add: acceptMergeRequest_def logf_def Let_def split: option.splits sum.splits prod.splits)

lemma acceptMergeRequest_sent:
  "sent (acceptMergeRequest fl ev p i r s) =
     (case newRequestErr ev of
        Some e \<Rightarrow> sent s
      | None \<Rightarrow> sent s @
          [\<lparr>Method = ''PUT'',
            Url = URL_String ((glURL s)\<lparr>Path := Path (glURL s) @ mergePath p i\<rparr>),
            Header = [(''Conntent-Type'', ''application/json''), (''PRIVATE-TOKEN'', privateToken fl)],
            Body = [(''should_remove_source_branch'', r)]\<rparr>])"
  by (simp add: acceptMergeRequest_def logf_def Let_def split: option.splits sum.splits prod.splits)

lemma checkLgtm_passed:
  assumes "ObjectKind c = ObjectNote" "fst (checkReviewers ev c s) = Ret True"
    and "NoteableType c = NoteableTypeMergeRequest"
    and "ToUpper (unicodeUpper ev) (Note c) = lgtmNote fl"
  shows "checkLgtm fl ev c s =
     (case countCall fl ev c s of
        (Block, s3) \<Rightarrow> (Hung, s3)
      | (Panic, s3) \<Rightarrow> (Crashed, s3)
      | (Return canbeMerged (Some e), s3) \<Rightarrow>
          (Returned, logf ErrorLevel ''check LGTM count failed'' s3)
      | (Return canbeMerged None, s3) \<Rightarrow>
          (if canbeMerged \<and> MergeStatus c = StatusCanbeMerged
           then (Returned,
                 acceptMergeRequest fl ev (ProjectID c) (Iid c) (ForceRemoveSourceBranch c)
                   (logf InfoLevel ''The MR can be merged.'' s3))
           else (Returned, logf InfoLevel ''The MR can not be merged.'' s3)))"
  using assms
  by (cases "checkReviewers ev c s") (simp add: checkLgtm_def countCall_def)

lemma checkLgtm_not_passed:
  assumes "\<not> (ObjectKind c = ObjectNote \<and> fst (checkReviewers ev c s) = Ret True
    \<and> NoteableType c = NoteableTypeMergeRequest
    \<and> ToUpper (unicodeUpper ev) (Note c) = lgtmNote fl)"
  shows "sent (snd (checkLgtm fl ev c s)) = sent s \<and> db (snd (checkLgtm fl ev c s)) = db s"
proof (cases "ObjectKind c = ObjectNote")
  case False
  then show ?thesis by (simp add: checkLgtm_def)
next
  case True
  obtain r s1 where cr: "checkReviewers ev c s = (r, s1)" by (cases "checkReviewers ev c s")
  with checkReviewers_frame [of ev c s] have fr: "db s1 = db s" "sent s1 = sent s" by simp_all
  show ?thesis
  proof (cases r)
    case Fatal
    with True cr fr show ?thesis by (simp add: checkLgtm_def)
  next
    case (Ret b)
    with True cr fr assms show ?thesis by (cases b) (auto simp add: checkLgtm_def)
  qed
qed

section \<open>Evaluation on the concrete deployment\<close>

lemma ToUpper_examples:
  "ToUpper f ''lgtm'' = ''LGTM''" "ToUpper f ''LGTM'' = ''LGTM''"
  "ToUpper f ''lgtm please'' = ''LGTM PLEASE''"
  by (simp_all add: ToUpper_def isASCII_def upperByte_def char_of_def bit_0)

lemma checkReviewers_examples:
  "checkReviewers exEnv c exState = (Ret True, exState)"
  "checkReviewers exReviewersEnv (exComment\<lparr>Username := ''carol''\<rparr>) exState =
     (Ret False, logf WarnLevel ''User carol is not allowed to do LGTM''
        (exState\<lparr>reviewers := [''alice'', ''bob'']\<rparr>))"
  by (simp_all add: checkReviewers_def getReviewers_def exEnv_def exReviewersEnv_def
      exComment_def)

lemma exUnmergeable_passes:
  "ObjectKind exUnmergeable = ObjectNote"
  "fst (checkReviewers exEnv exUnmergeable exState) = Ret True"
  "NoteableType exUnmergeable = NoteableTypeMergeRequest"
  "ToUpper (unicodeUpper exEnv) (Note exUnmergeable) = lgtmNote exFlags"
  "MergeStatus exUnmergeable \<noteq> StatusCanbeMerged"
  by (simp_all add: exUnmergeable_def exComment_def exFlags_def ObjectNote_def
      NoteableTypeMergeRequest_def NoteLGTM_def StatusCanbeMerged_def
      checkReviewers_examples ToUpper_examples)

lemma goInc_0: "goInc 0 = 1"
  by (simp add: goInc_def wrap64_def)

lemma countCall_example:
  "fst (countCall exFlags exEnv exUnmergeable exState) = Return False None"
  "db (snd (countCall exFlags exEnv exUnmergeable exState)) =
     [bucketName \<mapsto> [''42'' \<mapsto> ''1'']]"
  by (simp_all add: countCall_def checkReviewers_examples)
     (simp_all add: checkLGTMCount_def logf_def unlock_def exState_def exEnv_def exFlags_def
        exUnmergeable_def exComment_def Let_def Itoa_examples goInc_0 goRem_def)

section \<open>The classifier\<close>



text \<open>
  C4, as amended. For an event that passes the four checks and whose mergeability flag is
  not \<open>can_be_merged\<close>, no outbound merge is attempted, but the counter has been
  updated all the same: the store is the one left by \<open>checkLGTMCount\<close>, and when that
  call succeeded the entry of the merge request holds the incremented count. An outbound
  merge is attempted only when the threshold decision is true, without error, and the
  flag equals \<open>can_be_merged\<close>.
\<close>

theorem checkLgtm_merge_gate:
  assumes "ObjectKind c = ObjectNote" and "fst (checkReviewers ev c s) = Ret True"
    and "NoteableType c = NoteableTypeMergeRequest"
    and "ToUpper (unicodeUpper ev) (Note c) = lgtmNote fl"
  shows "(MergeStatus c \<noteq> StatusCanbeMerged \<longrightarrow>
            sent (snd (checkLgtm fl ev c s)) = sent s)
         \<and> db (snd (checkLgtm fl ev c s)) = db (snd (countCall fl ev c s))
         \<and> (\<forall>b. fst (countCall fl ev c s) = Return b None \<longrightarrow>
              entry (snd (checkLgtm fl ev c s)) (Iid c) =
                Some (Itoa (goInc (storedCount s (Iid c)))))
         \<and> (sent (snd (checkLgtm fl ev c s)) \<noteq> sent s \<longrightarrow>
              fst (countCall fl ev c s) = Return True None
              \<and> MergeStatus c = StatusCanbeMerged)"
proof -
  let ?s1 = "logf InfoLevel ''comment'' (snd (checkReviewers ev c s))"
  obtain q s3 where cc: "countCall fl ev c s = (q, s3)" by (cases "countCall fl ev c s")
  then have s3: "sent s3 = sent s"
    using checkLGTMCount_sent [of fl ev c ?s1]
    by (simp add: countCall_def logf_frame checkReviewers_frame)
  note p = checkLgtm_passed [OF assms]
  have dbs: "db ?s1 = db s"
    by (simp add: logf_frame checkReviewers_frame)
  have 1: "MergeStatus c \<noteq> StatusCanbeMerged \<longrightarrow> sent (snd (checkLgtm fl ev c s)) = sent s"
    using p cc s3 by (simp add: logf_frame split: count_result.splits option.splits)
  have 2: "db (snd (checkLgtm fl ev c s)) = db (snd (countCall fl ev c s))"
    using p cc
    by (simp add: logf_frame acceptMergeRequest_db split: count_result.splits option.splits)
  have 3: "\<forall>b. fst (countCall fl ev c s) = Return b None \<longrightarrow>
              entry (snd (checkLgtm fl ev c s)) (Iid c) =
                Some (Itoa (goInc (storedCount s (Iid c))))"
  proof (intro allI impI)
    fix b
    assume r: "fst (countCall fl ev c s) = Return b None"
    then have r': "fst (checkLGTMCount fl ev c ?s1) = Return b None"
      by (simp add: countCall_def)
    note n = success_needs [OF r']
    then have pre: "\<not> mutexLocked ?s1" "\<not> txOpen ?s1" "storageOk ev" "validLGTMCount fl \<noteq> 0"
      by simp_all
    have "entry (snd (countCall fl ev c s)) (Iid c) =
            Some (Itoa (goInc (storedCount ?s1 (Iid c))))"
      using entry_after_success [OF pre, of c "Iid c"] by (simp add: countCall_def)
    moreover have "storedCount ?s1 (Iid c) = storedCount s (Iid c)"
      by (rule storedCount_cong) (rule dbs)
    moreover have "entry (snd (checkLgtm fl ev c s)) (Iid c) =
        entry (snd (countCall fl ev c s)) (Iid c)"
      by (rule entry_cong) (rule 2)
    ultimately show "entry (snd (checkLgtm fl ev c s)) (Iid c) =
                Some (Itoa (goInc (storedCount s (Iid c))))"
      by simp
  qed
  have 4: "sent (snd (checkLgtm fl ev c s)) \<noteq> sent s \<longrightarrow>
              fst (countCall fl ev c s) = Return True None
              \<and> MergeStatus c = StatusCanbeMerged"
    using p cc s3
    by (auto simp add: logf_frame split: count_result.splits option.splits if_splits)
  from 1 2 3 4 show ?thesis by blast
qed

theorem checkLgtm_merge_gate_witness:
  "ObjectKind exUnmergeable = ObjectNote
   \<and> fst (checkReviewers exEnv exUnmergeable exState) = Ret True
   \<and> NoteableType exUnmergeable = NoteableTypeMergeRequest
   \<and> ToUpper (unicodeUpper exEnv) (Note exUnmergeable) = lgtmNote exFlags
   \<and> sent (snd (checkLgtm exFlags exEnv exUnmergeable exState)) = sent exState
   \<and> db (snd (checkLgtm exFlags exEnv exUnmergeable exState)) =
       [bucketName \<mapsto> [''42'' \<mapsto> ''1'']]"
  using checkLgtm_merge_gate [OF exUnmergeable_passes(1-4)] exUnmergeable_passes
    countCall_example
  by simp

text \<open>
  C4 as stated fails: an approval on a merge request whose flag is
  \<open>cannot_be_merged\<close> passes the four checks and changes the counter entry from absent
  to 1.
\<close>

theorem checkLgtm_unmergeable_counted:
  "ObjectKind exUnmergeable = ObjectNote
   \<and> fst (checkReviewers exEnv exUnmergeable exState) = Ret True
   \<and> NoteableType exUnmergeable = NoteableTypeMergeRequest
   \<and> ToUpper (unicodeUpper exEnv) (Note exUnmergeable) = lgtmNote exFlags
   \<and> MergeStatus exUnmergeable \<noteq> StatusCanbeMerged
   \<and> entry exState (Iid exUnmergeable) = None
   \<and> entry (snd (checkLgtm exFlags exEnv exUnmergeable exState)) (Iid exUnmergeable) = Some ''1''"
proof -
  have "db (snd (checkLgtm exFlags exEnv exUnmergeable exState)) =
      [bucketName \<mapsto> [''42'' \<mapsto> ''1'']]"
    using checkLgtm_passed [OF exUnmergeable_passes(1-4)] countCall_example
    by (cases "countCall exFlags exEnv exUnmergeable exState")
       (simp add: logf_frame exUnmergeable_passes)
  then have "entry (snd (checkLgtm exFlags exEnv exUnmergeable exState)) 42 = Some ''1''"
    by (simp add: entry_def Itoa_examples)
  moreover have "entry exState 42 = None"
    by (simp add: entry_def exState_def)
  moreover have "Iid exUnmergeable = 42"
    by (simp add: exUnmergeable_def exComment_def)
  ultimately show ?thesis
    using exUnmergeable_passes by simp
qed

section \<open>The reviewer policy\<close>




section \<open>The approval keyword\<close>

lemma upperByte_not_lower:
  "\<not> (97 \<le> (of_char (upperByte ch) :: nat) \<and> (of_char (upperByte ch) :: nat) \<le> 122)"
  by (auto simp add: upperByte_def)

lemma ToUpper_ascii_no_lower:
  assumes "isASCII n" and "ch \<in> set (ToUpper f n)"
  shows "\<not> (97 \<le> (of_char ch :: nat) \<and> (of_char ch :: nat) \<le> 122)"
  using assms upperByte_not_lower by (auto simp add: ToUpper_def)

lemma lowercase_keyword_never_matches:
  assumes "isASCII (Note c)" and "ch \<in> set (lgtmNote fl)"
    and "97 \<le> (of_char ch :: nat)" and "(of_char ch :: nat) \<le> 122"
  shows "checkLgtm fl ev c s = (Returned, s) \<or>
         checkLgtm fl ev c s = (Returned, snd (checkReviewers ev c s)) \<or>
         checkLgtm fl ev c s = (Exited, snd (checkReviewers ev c s))"
proof -
  have ne: "ToUpper (unicodeUpper ev) (Note c) \<noteq> lgtmNote fl"
    using ToUpper_ascii_no_lower [OF assms(1), of ch "unicodeUpper ev"] assms(2-4) by auto
  obtain r s1 where cr: "checkReviewers ev c s = (r, s1)" by (cases "checkReviewers ev c s")
  show ?thesis
  proof (cases r)
    case Fatal
    with cr show ?thesis by (simp add: checkLgtm_def)
  next
    case (Ret b)
    with cr ne show ?thesis by (cases b) (simp_all add: checkLgtm_def)
  qed
qed

text \<open>
  C2. The claim asks for a comparison that ignores the letter case of the configured
  keyword. The code upper-cases the comment only and compares it byte for byte with the
  keyword as configured: with the keyword \<open>lgtm\<close> the comments \<open>lgtm\<close> and \<open>LGTM\<close>
  are both ignored, and with \<open>Lgtm\<close> the comment \<open>Lgtm\<close> is ignored.
\<close>

theorem checkLgtm_lowercase_keyword:
  "ToUpper (unicodeUpper exEnv) (Note exComment) = ''LGTM''
   \<and> checkLgtm (exFlags\<lparr>lgtmNote := ''lgtm''\<rparr>) exEnv exComment exState = (Returned, exState)
   \<and> checkLgtm (exFlags\<lparr>lgtmNote := ''lgtm''\<rparr>) exEnv (exComment\<lparr>Note := ''LGTM''\<rparr>) exState
       = (Returned, exState)
   \<and> checkLgtm (exFlags\<lparr>lgtmNote := ''Lgtm''\<rparr>) exEnv (exComment\<lparr>Note := ''Lgtm''\<rparr>) exState
       = (Returned, exState)"
  by (simp add: checkLgtm_def checkReviewers_examples)
     (simp add: exComment_def ObjectNote_def NoteableTypeMergeRequest_def ToUpper_def
        isASCII_def upperByte_def char_of_def bit_0)

section \<open>The merge trigger\<close>

lemma escapePath_plain: "\<forall>c \<in> set p. \<not> shouldEscapePath c \<Longrightarrow> escapePath p = p"
  by (induction p) (simp_all add: escapePath_def)

lemma URL_String_plain:
  assumes "Scheme u \<noteq> []" and "Host u \<noteq> []" and "\<forall>c \<in> set (Path u). \<not> shouldEscapePath c"
    and "Path u = [] \<or> hd (Path u) = CHR ''/''"
  shows "URL_String u = Scheme u @ ''://'' @ Host u @ Path u"
proof -
  have "Path u \<noteq> ''*''"
    using assms(4) by auto
  then show ?thesis
    using assms by (auto simp add: URL_String_def Let_def escapePath_plain)
qed

lemma acceptMergeRequest_request:
  assumes "newRequestErr ev = None"
  shows "sent (acceptMergeRequest fl ev p i r s) = sent s @
      [\<lparr>Method = ''PUT'',
        Url = URL_String ((glURL s)\<lparr>Path := Path (glURL s) @ mergePath p i\<rparr>),
        Header = [(''Conntent-Type'', ''application/json''), (''PRIVATE-TOKEN'', privateToken fl)],
        Body = [(''should_remove_source_branch'', r)]\<rparr>]"
    and "Path (glURL (acceptMergeRequest fl ev p i r s)) = Path (glURL s) @ mergePath p i"
  using assms
  by (simp_all add: acceptMergeRequest_def logf_def Let_def
      split: sum.splits prod.splits)

text \<open>
  C3. The claim asks for the fixed path appended once to the base URL on every call. The
  code appends it to the global \<open>glURL\<close> and keeps the result: the URL of the second
  request carries the path twice.
\<close>

theorem acceptMergeRequest_second_call:
  "map Url (sent (acceptMergeRequest exFlags exEnv 5 42 ''true''
       (acceptMergeRequest exFlags exEnv 5 42 ''true'' exState))) =
     [''https://gitlab.example.com/api/v4/projects/5/merge_requests/42/merge'',
      ''https://gitlab.example.com/api/v4/projects/5/merge_requests/42/merge/api/v4/projects/5/merge_requests/42/merge'']"
  by (simp add: acceptMergeRequest_def exEnv_def exState_def logf_def Let_def URL_String_def
      mergePath_def Itoa_examples escapePath_def shouldEscapePath_def isAlnum_def)

section \<open>The webhook endpoint\<close>

lemma doPrintf0_plain: "CHR ''%'' \<notin> set m \<Longrightarrow> doPrintf0 other m = m"
  by (induction other m rule: doPrintf0.induct) auto

lemma Fprintf0_plain: "CHR ''%'' \<notin> set m \<Longrightarrow> Fprintf0 ev m = m"
  by (simp add: Fprintf0_def doPrintf0_plain)

lemma Fprintf0_fixed:
  "Fprintf0 ev (''error occurs:'' @ ErrInvalidContentType) = ''error occurs:invalid content type''"
  "Fprintf0 ev (''error occurs:'' @ ErrInvalidRequest) = ''error occurs:invalid request body''"
  by (simp_all add: Fprintf0_plain ErrInvalidContentType_def ErrInvalidRequest_def)

text \<open>
  Status and goroutine of every path of \<open>LGTMHandler\<close>, and the body of the answer:
  \<open>OK\<close> with 200; with 400 the two fixed messages after \<open>error occurs:\<close>, and for a
  decoding error its message, after \<open>error occurs:\<close>, as \<open>fmt.Fprintf\<close> renders it when
  taken as a format, which is the message itself only when it has no \<open>%\<close>.
\<close>

lemma LGTMHandler_cases:
  "((reqContentType r \<noteq> ''application/json'' \<or> reqMethod r \<noteq> ''POST'' \<or> reqBody r = None
      \<or> (\<exists>b e. reqBody r = Some b \<and> jsonDecode ev b = Inl e)) \<longrightarrow>
      respStatus (fst (fst (LGTMHandler ev r s))) = 400
      \<and> snd (fst (LGTMHandler ev r s)) = None)
   \<and> (\<not> (reqContentType r \<noteq> ''application/json'' \<or> reqMethod r \<noteq> ''POST''
          \<or> reqBody r = None
          \<or> (\<exists>b e. reqBody r = Some b \<and> jsonDecode ev b = Inl e)) \<longrightarrow>
      respStatus (fst (fst (LGTMHandler ev r s))) = 200
      \<and> respBody (fst (fst (LGTMHandler ev r s))) = ''OK''
      \<and> (\<exists>b c. reqBody r = Some b \<and> jsonDecode ev b = Inr c
            \<and> snd (fst (LGTMHandler ev r s)) = Some c))
   \<and> (reqContentType r \<noteq> ''application/json'' \<longrightarrow>
        respBody (fst (fst (LGTMHandler ev r s))) = ''error occurs:invalid content type'')
   \<and> (reqContentType r = ''application/json''
        \<and> (reqMethod r \<noteq> ''POST'' \<or> reqBody r = None) \<longrightarrow>
        respBody (fst (fst (LGTMHandler ev r s))) = ''error occurs:invalid request body'')
   \<and> (\<forall>b e. reqContentType r = ''application/json'' \<and> reqMethod r = ''POST''
        \<and> reqBody r = Some b \<and> jsonDecode ev b = Inl e \<longrightarrow>
        respBody (fst (fst (LGTMHandler ev r s))) = Fprintf0 ev (''error occurs:'' @ e)
        \<and> (CHR ''%'' \<notin> set e \<longrightarrow>
             respBody (fst (fst (LGTMHandler ev r s))) = ''error occurs:'' @ e))"
proof -
  have 1: "(reqContentType r \<noteq> ''application/json'' \<or> reqMethod r \<noteq> ''POST'' \<or> reqBody r = None
      \<or> (\<exists>b e. reqBody r = Some b \<and> jsonDecode ev b = Inl e)) \<longrightarrow>
      respStatus (fst (fst (LGTMHandler ev r s))) = 400
      \<and> snd (fst (LGTMHandler ev r s)) = None"
    by (auto simp add: LGTMHandler_def respond_def Let_def split: option.splits sum.splits)
  have 2: "\<not> (reqContentType r \<noteq> ''application/json'' \<or> reqMethod r \<noteq> ''POST''
          \<or> reqBody r = None
          \<or> (\<exists>b e. reqBody r = Some b \<and> jsonDecode ev b = Inl e)) \<longrightarrow>
      respStatus (fst (fst (LGTMHandler ev r s))) = 200
      \<and> respBody (fst (fst (LGTMHandler ev r s))) = ''OK''
      \<and> (\<exists>b c. reqBody r = Some b \<and> jsonDecode ev b = Inr c
            \<and> snd (fst (LGTMHandler ev r s)) = Some c)"
  proof (intro impI)
    assume a: "\<not> (reqContentType r \<noteq> ''application/json'' \<or> reqMethod r \<noteq> ''POST''
          \<or> reqBody r = None
          \<or> (\<exists>b e. reqBody r = Some b \<and> jsonDecode ev b = Inl e))"
    then obtain b where b: "reqBody r = Some b" by auto
    with a obtain c where c: "jsonDecode ev b = Inr c" by (cases "jsonDecode ev b") auto
    from a b c show "respStatus (fst (fst (LGTMHandler ev r s))) = 200
      \<and> respBody (fst (fst (LGTMHandler ev r s))) = ''OK''
      \<and> (\<exists>b c. reqBody r = Some b \<and> jsonDecode ev b = Inr c
            \<and> snd (fst (LGTMHandler ev r s)) = Some c)"
      by (simp add: LGTMHandler_def respond_def Let_def RespOK_def)
  qed
  have 3: "reqContentType r \<noteq> ''application/json'' \<longrightarrow>
        respBody (fst (fst (LGTMHandler ev r s))) = ''error occurs:invalid content type''"
    using Fprintf0_fixed(1) [of ev]
    by (simp add: LGTMHandler_def respond_def Let_def)
  have 4: "reqContentType r = ''application/json''
        \<and> (reqMethod r \<noteq> ''POST'' \<or> reqBody r = None) \<longrightarrow>
        respBody (fst (fst (LGTMHandler ev r s))) = ''error occurs:invalid request body''"
    using Fprintf0_fixed(2) [of ev]
    by (auto simp add: LGTMHandler_def respond_def Let_def)
  have 5: "\<forall>b e. reqContentType r = ''application/json'' \<and> reqMethod r = ''POST''
        \<and> reqBody r = Some b \<and> jsonDecode ev b = Inl e \<longrightarrow>
        respBody (fst (fst (LGTMHandler ev r s))) = Fprintf0 ev (''error occurs:'' @ e)
        \<and> (CHR ''%'' \<notin> set e \<longrightarrow>
             respBody (fst (fst (LGTMHandler ev r s))) = ''error occurs:'' @ e)"
    by (auto simp add: LGTMHandler_def respond_def Let_def Fprintf0_plain)
  from 1 2 3 4 5 show ?thesis by blast
qed

text \<open>
  C8. The claim asks for the error message as the body of every 400 answer. The handler
  writes \<open>errMsg\<close> with \<open>fmt.Fprintf(w, errMsg)\<close>, as a format string and not as an
  operand. For the body \<open>%\<close> the decoder's message quotes the byte, \<open>fmt\<close> reads
  \<open>%'\<close> as a verb without operand, and the answer carries \<open>%!'(MISSING)\<close> where the
  message has \<open>%'\<close>. The status is 400 and no goroutine is started, as claimed.
\<close>

theorem LGTMHandler_format_string:
  "jsonDecode exPercentEnv ''%'' = Inl ''invalid character '%' looking for beginning of value''
   \<and> fst (LGTMHandler exPercentEnv exPercentRequest exState) =
       (\<lparr>respStatus = 400,
         respBody =
           ''error occurs:invalid character '%!'(MISSING) looking for beginning of value''\<rparr>,
        None)
   \<and> respBody (fst (fst (LGTMHandler exPercentEnv exPercentRequest exState))) \<noteq>
       ''error occurs:'' @ ''invalid character '%' looking for beginning of value''"
  by (simp add: LGTMHandler_def respond_def Let_def Fprintf0_def exPercentEnv_def
      exPercentRequest_def plainVerb_def)

end
